theory Spec2Isabelle
  imports Main "HOL-Library.Char_ord" "HOL-Library.List_Lexorder"
begin

section \<open>The todo list component and its reconciler\<close>

text \<open>
  The development follows the page component \<^verbatim>\<open>TodoApp\<close> in the version that keeps
  the locally rendered list consistent with the remote table: optimistic local edits,
  roll-back on a failed remote call, and the set \<^verbatim>\<open>localOperations\<close> that suppresses
  the change-feed echo of an own mutation. This is the component that starts at line 170
  of \<^verbatim>\<open>src/unnamed/part_000\<close>, the one that declares \<^verbatim>\<open>localOperations\<close>; the line
  numbers given below are lines of that file. \<^verbatim>\<open>src/app/page.tsx\<close> holds the same
  component without the optimistic edits and without the suppression; its \<^verbatim>\<open>addTodo\<close>
  opens with the same guard.

  The component is event driven and single threaded. Every callback is a function from
  state to state. An asynchronous handler is split at its \<^verbatim>\<open>await\<close>: the part that
  runs at once (\<open>_begin\<close>) and the continuation that runs when the remote call has
  answered (\<open>_settle\<close>); other callbacks may run in between. The answer of the remote
  store and the readings of the clock are inputs.
\<close>

subsection \<open>Data\<close>

text \<open>
  \<^verbatim>\<open>interface Todo\<close> (lines 181 to 188). The fields \<^verbatim>\<open>id\<close> and \<^verbatim>\<open>text\<close> carry a
  suffix here.
\<close>

record Todo =
  id_todo :: string
  user_id :: string
  text_todo :: string
  completed :: bool
  created_at :: string
  updated_at :: string

text \<open>
  The React state of the component that the handlers read and write: \<^verbatim>\<open>todos\<close>,
  \<^verbatim>\<open>inputValue\<close>, \<^verbatim>\<open>user\<close> (only \<^verbatim>\<open>user.id\<close> is ever read; \<open>None\<close> is
  \<^verbatim>\<open>null\<close>) and the set held by the ref \<^verbatim>\<open>localOperations\<close>.
\<close>

record State =
  todos :: "Todo list"
  inputValue :: string
  user :: "string option"
  localOperations :: "string set"

text \<open>
  The payload of a change-feed notification: \<^verbatim>\<open>eventType\<close>, \<^verbatim>\<open>new\<close> and \<^verbatim>\<open>old\<close>,
  under the names the handler gives them.
\<close>

record Payload =
  eventType :: string
  newRecord :: Todo
  oldRecord :: Todo

text \<open>
  What \<^verbatim>\<open>await supabase.from('todos')...\<close> gives back: a result whose \<^verbatim>\<open>error\<close> is
  set, an exception caught by the handler's \<^verbatim>\<open>catch\<close>, or the data.
\<close>

datatype 'a response = ErrorResult | Exception | Data 'a

subsection \<open>Strings\<close>

text \<open>
  Strings are lists of code units below 256. \<^verbatim>\<open>String.prototype.trim\<close> removes white
  space and line terminators from both ends; in this range these are the code units 9 to
  13, 32 and 160.
\<close>

definition isWhiteSpace :: "char \<Rightarrow> bool" where
  "isWhiteSpace c \<longleftrightarrow> (of_char c :: nat) \<in> {9, 10, 11, 12, 13, 32, 160}"

definition trim :: "string \<Rightarrow> string" where
  "trim s = rev (dropWhile isWhiteSpace (rev (dropWhile isWhiteSpace s)))"

text \<open>
  The decimal numeral that a template literal prints for a non-negative integer below
  \<open>10\<^sup>2\<^sup>1\<close>, as every reading of \<^verbatim>\<open>Date.now()\<close> is.
\<close>

fun toString :: "nat \<Rightarrow> string" where
  "toString n =
     (if n < 10 then [''0123456789'' ! n]
      else toString (n div 10) @ [''0123456789'' ! (n mod 10)])"

declare toString.simps [simp del]

subsection \<open>Tracking local operations\<close>

definition operationKey :: "string \<Rightarrow> string \<Rightarrow> string" where
  "operationKey ident operation = operation @ ''_'' @ ident"

text \<open>
  Lines 204 to 217. \<^verbatim>\<open>addLocalOperation\<close> adds the key and schedules its deletion
  5000 ms later. The scheduled callback is the transition \<open>localOperationTimeout\<close>; an
  event is inside the suppression window when it is handled before that callback has run.
\<close>

definition addLocalOperation :: "string \<Rightarrow> string \<Rightarrow> State \<Rightarrow> State" where
  "addLocalOperation ident operation s =
     s\<lparr>localOperations := insert (operationKey ident operation) (localOperations s)\<rparr>"

definition localOperationTimeout :: "string \<Rightarrow> string \<Rightarrow> State \<Rightarrow> State" where
  "localOperationTimeout ident operation s =
     s\<lparr>localOperations := localOperations s - {operationKey ident operation}\<rparr>"

definition isLocalOperation :: "string \<Rightarrow> string \<Rightarrow> State \<Rightarrow> bool" where
  "isLocalOperation ident operation s \<longleftrightarrow> operationKey ident operation \<in> localOperations s"

subsection \<open>Change-feed events\<close>

text \<open>
  Lines 312 to 381. The check against \<^verbatim>\<open>localOperations\<close> and the update of the list
  both see the state in which the event is handled.
\<close>

definition handleRealtimeChange :: "Payload \<Rightarrow> State \<Rightarrow> State" where
  "handleRealtimeChange payload s =
     (if eventType payload = ''INSERT'' then
        (if isLocalOperation (id_todo (newRecord payload)) ''INSERT'' s then s
         else s\<lparr>todos :=
           (case find (\<lambda>todo. id_todo todo = id_todo (newRecord payload)) (todos s) of
              Some exists \<Rightarrow> todos s
            | None \<Rightarrow> newRecord payload # todos s)\<rparr>)
      else if eventType payload = ''UPDATE'' then
        (if isLocalOperation (id_todo (newRecord payload)) ''UPDATE'' s then s
         else s\<lparr>todos :=
           (case find (\<lambda>todo. id_todo todo = id_todo (newRecord payload)) (todos s) of
              None \<Rightarrow> todos s
            | Some existingTodo \<Rightarrow>
                map (\<lambda>todo. if id_todo todo = id_todo (newRecord payload)
                            then newRecord payload else todo) (todos s))\<rparr>)
      else if eventType payload = ''DELETE'' then
        (if isLocalOperation (id_todo (oldRecord payload)) ''DELETE'' s then s
         else s\<lparr>todos :=
           (case find (\<lambda>todo. id_todo todo = id_todo (oldRecord payload)) (todos s) of
              None \<Rightarrow> todos s
            | Some exists \<Rightarrow>
                filter (\<lambda>todo. id_todo todo \<noteq> id_todo (oldRecord payload)) (todos s))\<rparr>)
      else s)"

subsection \<open>Adding a todo\<close>

text \<open>
  \<^verbatim>\<open>addTodo\<close> (lines 388 to 441) up to its \<^verbatim>\<open>await\<close>. \<open>dateNow\<close> is the reading of \<^verbatim>\<open>Date.now()\<close>,
  \<open>isoCreated\<close> and \<open>isoUpdated\<close> are the two results of
  \<^verbatim>\<open>new Date().toISOString()\<close>. \<open>None\<close> is the early \<^verbatim>\<open>return\<close>: nothing is changed
  and no request is sent. Otherwise the placeholder is returned with the new state, and
  the insert request has been sent.
\<close>

definition addTodo_begin ::
  "nat \<Rightarrow> string \<Rightarrow> string \<Rightarrow> State \<Rightarrow> (Todo \<times> State) option" where
  "addTodo_begin dateNow isoCreated isoUpdated s =
     (if trim (inputValue s) = [] then None
      else case user s of
        None \<Rightarrow> None
      | Some uid \<Rightarrow>
          let tempTodo = \<lparr>id_todo = ''temp_'' @ toString dateNow, user_id = uid,
                text_todo = trim (inputValue s), completed = False,
                created_at = isoCreated, updated_at = isoUpdated\<rparr>
          in Some (tempTodo, s\<lparr>todos := tempTodo # todos s, inputValue := []\<rparr>))"

text \<open>The rest of \<^verbatim>\<open>addTodo\<close>, run when the insert request has answered.\<close>

definition addTodo_settle :: "Todo \<Rightarrow> Todo response \<Rightarrow> State \<Rightarrow> State" where
  "addTodo_settle tempTodo r s =
     (case r of
        Data data \<Rightarrow>
          addLocalOperation (id_todo data) ''INSERT''
            (s\<lparr>todos := map (\<lambda>todo. if id_todo todo = id_todo tempTodo then data else todo)
                            (todos s)\<rparr>)
      | ErrorResult \<Rightarrow>
          s\<lparr>todos := filter (\<lambda>todo. id_todo todo \<noteq> id_todo tempTodo) (todos s),
            inputValue := text_todo tempTodo\<rparr>
      | Exception \<Rightarrow>
          s\<lparr>todos := filter (\<lambda>todo. id_todo todo \<noteq> id_todo tempTodo) (todos s),
            inputValue := text_todo tempTodo\<rparr>)"

text \<open>\<^verbatim>\<open>addTodo\<close> with nothing else running between the request and its answer.\<close>

definition addTodo :: "nat \<Rightarrow> string \<Rightarrow> string \<Rightarrow> Todo response \<Rightarrow> State \<Rightarrow> State" where
  "addTodo dateNow isoCreated isoUpdated r s =
     (case addTodo_begin dateNow isoCreated isoUpdated s of
        None \<Rightarrow> s
      | Some (tempTodo, s1) \<Rightarrow> addTodo_settle tempTodo r s1)"

subsection \<open>Toggling a todo\<close>

text \<open>
  \<^verbatim>\<open>toggleTodo\<close> (lines 444 to 486) up to its \<^verbatim>\<open>await\<close>; the entry found is kept
  for the roll-back. The handler looks the entry up in the list of the render it belongs
  to, which is the list of the state in which it starts.
\<close>

definition toggleTodo_begin :: "string \<Rightarrow> State \<Rightarrow> (Todo \<times> State) option" where
  "toggleTodo_begin ident s =
     (case user s of
        None \<Rightarrow> None
      | Some uid \<Rightarrow>
          (case find (\<lambda>t. id_todo t = ident) (todos s) of
             None \<Rightarrow> None
           | Some todo \<Rightarrow>
               Some (todo,
                 s\<lparr>todos := map (\<lambda>t. if id_todo t = ident
                                      then t\<lparr>completed := \<not> completed t\<rparr> else t)
                                 (todos s)\<rparr>)))"

definition toggleTodo_settle :: "string \<Rightarrow> Todo \<Rightarrow> unit response \<Rightarrow> State \<Rightarrow> State" where
  "toggleTodo_settle ident todo r s =
     (case r of
        Data u \<Rightarrow> addLocalOperation ident ''UPDATE'' s
      | ErrorResult \<Rightarrow>
          s\<lparr>todos := map (\<lambda>t. if id_todo t = ident
                               then t\<lparr>completed := completed todo\<rparr> else t) (todos s)\<rparr>
      | Exception \<Rightarrow>
          s\<lparr>todos := map (\<lambda>t. if id_todo t = ident
                               then t\<lparr>completed := completed todo\<rparr> else t) (todos s)\<rparr>)"

definition toggleTodo :: "string \<Rightarrow> unit response \<Rightarrow> State \<Rightarrow> State" where
  "toggleTodo ident r s =
     (case toggleTodo_begin ident s of
        None \<Rightarrow> s
      | Some (todo, s1) \<Rightarrow> toggleTodo_settle ident todo r s1)"

subsection \<open>Deleting a todo\<close>

text \<open>
  \<^verbatim>\<open>deleteTodo\<close> (lines 489 to 520) up to its \<^verbatim>\<open>await\<close>; \<^verbatim>\<open>todoToDelete\<close> is
  kept for the roll-back.
\<close>

definition deleteTodo_begin :: "string \<Rightarrow> State \<Rightarrow> (Todo \<times> State) option" where
  "deleteTodo_begin ident s =
     (case user s of
        None \<Rightarrow> None
      | Some uid \<Rightarrow>
          (case find (\<lambda>t. id_todo t = ident) (todos s) of
             None \<Rightarrow> None
           | Some todoToDelete \<Rightarrow>
               Some (todoToDelete,
                 s\<lparr>todos := filter (\<lambda>todo. id_todo todo \<noteq> ident) (todos s)\<rparr>)))"

definition deleteTodo_settle :: "string \<Rightarrow> Todo \<Rightarrow> unit response \<Rightarrow> State \<Rightarrow> State" where
  "deleteTodo_settle ident todoToDelete r s =
     (case r of
        Data u \<Rightarrow> addLocalOperation ident ''DELETE'' s
      | ErrorResult \<Rightarrow> s\<lparr>todos := todoToDelete # todos s\<rparr>
      | Exception \<Rightarrow> s\<lparr>todos := todoToDelete # todos s\<rparr>)"

definition deleteTodo :: "string \<Rightarrow> unit response \<Rightarrow> State \<Rightarrow> State" where
  "deleteTodo ident r s =
     (case deleteTodo_begin ident s of
        None \<Rightarrow> s
      | Some (todoToDelete, s1) \<Rightarrow> deleteTodo_settle ident todoToDelete r s1)"

subsection \<open>Sequences of add operations\<close>

text \<open>The list is ordered by \<^verbatim>\<open>created_at\<close> descending; the strings are compared as strings.\<close>

definition sorted_desc :: "Todo list \<Rightarrow> bool" where
  "sorted_desc xs = sorted_wrt (\<lambda>a b. created_at b \<le> created_at a) xs"

text \<open>The state setter behind the input field's \<^verbatim>\<open>onChange\<close>.\<close>

definition setInputValue :: "string \<Rightarrow> State \<Rightarrow> State" where
  "setInputValue v s = s\<lparr>inputValue := v\<rparr>"

text \<open>
  One add operation as the user performs it: the text is typed into the input field and
  \<^verbatim>\<open>addTodo\<close> runs, and its request is answered before anything else happens. The
  record holds what comes from outside: the typed text, the three clock readings and the
  answer of the remote store.
\<close>

record AddCall =
  typed :: string
  clock_ms :: nat
  iso_created :: string
  iso_updated :: string
  answer :: "Todo response"

text \<open>
  The states that can be observed during one add operation: after typing, after the
  optimistic insert, and after the answer has been handled.
\<close>

definition addCall_states :: "AddCall \<Rightarrow> State \<Rightarrow> State list" where
  "addCall_states a s =
     (case addTodo_begin (clock_ms a) (iso_created a) (iso_updated a)
             (setInputValue (typed a) s) of
        None \<Rightarrow> [setInputValue (typed a) s]
      | Some (tempTodo, s1) \<Rightarrow>
          [setInputValue (typed a) s, s1, addTodo_settle tempTodo (answer a) s1])"

definition addCall :: "AddCall \<Rightarrow> State \<Rightarrow> State" where
  "addCall a s =
     addTodo (clock_ms a) (iso_created a) (iso_updated a) (answer a)
       (setInputValue (typed a) s)"

fun observations :: "State \<Rightarrow> AddCall list \<Rightarrow> State list" where
  "observations s [] = [s]"
| "observations s (a # as) = s # addCall_states a s @ observations (addCall a s) as"

definition run_calls :: "AddCall list \<Rightarrow> State \<Rightarrow> State" where
  "run_calls calls s = foldl (\<lambda>s a. addCall a s) s calls"

text \<open>
  The timestamps of an add operation are later than the list it meets: no entry of the
  list is newer than the placeholder's \<^verbatim>\<open>created_at\<close> or, when the remote store
  answers with a record, than that record's \<^verbatim>\<open>created_at\<close>; and no entry carries the
  placeholder's id.
\<close>

definition call_admissible :: "AddCall \<Rightarrow> Todo list \<Rightarrow> bool" where
  "call_admissible a xs \<longleftrightarrow>
     (\<forall>t \<in> set xs.
        created_at t \<le> iso_created a
        \<and> (case answer a of Data d \<Rightarrow> created_at t \<le> created_at d | _ \<Rightarrow> True)
        \<and> id_todo t \<noteq> ''temp_'' @ toString (clock_ms a))"

fun calls_admissible :: "State \<Rightarrow> AddCall list \<Rightarrow> bool" where
  "calls_admissible s [] = True"
| "calls_admissible s (a # as) =
     (call_admissible a (todos s) \<and> calls_admissible (addCall a s) as)"

subsection \<open>Example data\<close>

text \<open>
  Clock readings and the timestamps they stand for: \<open>ms10\<close> is \<^verbatim>\<open>Date.now()\<close> at
  \<open>at10\<close>, \<open>at10_1\<close> is one millisecond later, \<open>ms10_2\<close> and \<open>at10_2\<close> are 200
  milliseconds later, and \<open>at10s\<close> is the time at which the remote store commits a row
  sent at \<open>at10\<close>, 250 milliseconds later; likewise for 11 and 12 o'clock.
\<close>

abbreviation ms10 :: nat where "ms10 \<equiv> 1714557600000"
abbreviation ms11 :: nat where "ms11 \<equiv> 1714561200000"
abbreviation ms12 :: nat where "ms12 \<equiv> 1714564800000"
abbreviation at10 :: string where "at10 \<equiv> ''2024-05-01T10:00:00.000Z''"
abbreviation at10_1 :: string where "at10_1 \<equiv> ''2024-05-01T10:00:00.001Z''"
abbreviation at10s :: string where "at10s \<equiv> ''2024-05-01T10:00:00.250Z''"
abbreviation at11 :: string where "at11 \<equiv> ''2024-05-01T11:00:00.000Z''"
abbreviation at11s :: string where "at11s \<equiv> ''2024-05-01T11:00:00.250Z''"
abbreviation at12 :: string where "at12 \<equiv> ''2024-05-01T12:00:00.000Z''"
abbreviation temp10 :: string where "temp10 \<equiv> ''temp_1714557600000''"
abbreviation ms10_2 :: nat where "ms10_2 \<equiv> 1714557600200"
abbreviation at10_2 :: string where "at10_2 \<equiv> ''2024-05-01T10:00:00.200Z''"
abbreviation temp10_2 :: string where "temp10_2 \<equiv> ''temp_1714557600200''"

abbreviation task :: "string \<Rightarrow> string \<Rightarrow> bool \<Rightarrow> string \<Rightarrow> Todo" where
  "task ident txt flag stamp \<equiv>
     \<lparr>id_todo = ident, user_id = ''u1'', text_todo = txt, completed = flag,
      created_at = stamp, updated_at = stamp\<rparr>"

abbreviation signedIn :: "Todo list \<Rightarrow> string \<Rightarrow> string set \<Rightarrow> State" where
  "signedIn xs v ops \<equiv> \<lparr>todos = xs, inputValue = v, user = Some ''u1'', localOperations = ops\<rparr>"

abbreviation feed :: "string \<Rightarrow> Todo \<Rightarrow> Payload" where
  "feed kind r \<equiv> \<lparr>eventType = kind, newRecord = r, oldRecord = r\<rparr>"

abbreviation adding :: "string \<Rightarrow> nat \<Rightarrow> string \<Rightarrow> Todo response \<Rightarrow> AddCall" where
  "adding v n stamp r \<equiv>
     \<lparr>typed = v, clock_ms = n, iso_created = stamp, iso_updated = stamp, answer = r\<rparr>"

section \<open>Properties\<close>

subsection \<open>Auxiliary facts\<close>

lemma dropWhile_all_iff: "(\<forall>c \<in> set (dropWhile P xs). P c) \<longleftrightarrow> (\<forall>c \<in> set xs. P c)"
  by (induction xs) auto

lemma trim_Nil_iff: "trim x = [] \<longleftrightarrow> (\<forall>c \<in> set x. isWhiteSpace c)"
  by (simp add: trim_def dropWhile_eq_Nil_conv dropWhile_all_iff)

lemma toString_ms10: "toString ms10 = ''1714557600000''"
  by (simp add: toString.simps)

lemma toString_ms10_2: "toString ms10_2 = ''1714557600200''"
  by (simp add: toString.simps)

lemma toString_ms11: "toString ms11 = ''1714561200000''"
  by (simp add: toString.simps)

lemma toString_ms12: "toString ms12 = ''1714564800000''"
  by (simp add: toString.simps)

lemma map_replace_absent:
  "find (\<lambda>todo. id_todo todo = k) xs = None \<Longrightarrow>
   map (\<lambda>todo. if id_todo todo = k then f todo else todo) xs = xs"
  by (induction xs) (auto split: if_splits)

lemma filter_absent:
  "find (\<lambda>todo. id_todo todo = k) xs = None \<Longrightarrow>
   filter (\<lambda>todo. id_todo todo \<noteq> k) xs = xs"
  by (induction xs) (auto split: if_splits)

lemma map_replace_twice:
  "map (\<lambda>todo. if id_todo todo = id_todo n then n else todo)
     (map (\<lambda>todo. if id_todo todo = id_todo n then n else todo) xs)
   = map (\<lambda>todo. if id_todo todo = id_todo n then n else todo) xs"
  by (induction xs) auto

lemma find_map_update:
  assumes "\<And>t. id_todo (f t) = id_todo t"
  shows "find (\<lambda>t. id_todo t = k) (map (\<lambda>t. if id_todo t = k then f t else t) xs)
    = map_option f (find (\<lambda>t. id_todo t = k) xs)"
  using assms by (induction xs) auto

lemma toggle_then_restore:
  "map (\<lambda>t. if id_todo t = k then t\<lparr>completed := c\<rparr> else t)
     (map (\<lambda>t. if id_todo t = k then t\<lparr>completed := \<not> completed t\<rparr> else t) xs)
   = map (\<lambda>t. if id_todo t = k then t\<lparr>completed := c\<rparr> else t) xs"
  by (induction xs) auto

lemma isLocalOperation_todos [simp]:
  "isLocalOperation k operation (s\<lparr>todos := xs\<rparr>) = isLocalOperation k operation s"
  by (simp add: isLocalOperation_def)

lemma isLocalOperation_added:
  "isLocalOperation k operation (addLocalOperation k operation s)"
  by (simp add: isLocalOperation_def addLocalOperation_def)

lemma isLocalOperation_timed_out:
  "\<not> isLocalOperation k operation (localOperationTimeout k operation s)"
  by (simp add: isLocalOperation_def localOperationTimeout_def)

subsection \<open>Empty input\<close>

text \<open>
  C7. When the trimmed input is empty (the input is empty or holds white space only),
  \<^verbatim>\<open>addTodo\<close> returns at once: no request is sent (\<open>addTodo_begin\<close> is \<open>None\<close>) and
  the whole state, in particular the list and the input buffer, stays as it was, whatever
  the clock shows and whatever the remote store would have answered.
\<close>

theorem addTodo_rejects_blank:
  assumes "trim (inputValue s) = []"
  shows "addTodo_begin dateNow isoCreated isoUpdated s = None
    \<and> addTodo dateNow isoCreated isoUpdated r s = s"
  using assms by (simp add: addTodo_def addTodo_begin_def)

theorem addTodo_rejects_blank_witness:
  "trim (inputValue (signedIn [] [CHR '' '', CHR 0x09] {})) = []
   \<and> addTodo_begin ms10 at10 at10 (signedIn [] [CHR '' '', CHR 0x09] {}) = None
   \<and> addTodo ms10 at10 at10 (Data (task ''1'' ''x'' False at10))
        (signedIn [] [CHR '' '', CHR 0x09] {})
      = signedIn [] [CHR '' '', CHR 0x09] {}"
proof -
  have blank: "trim (inputValue (signedIn [] [CHR '' '', CHR 0x09] {})) = []"
    by (simp add: trim_def isWhiteSpace_def)
  show ?thesis
    using blank addTodo_rejects_blank [OF blank] by simp
qed

subsection \<open>Change-feed events\<close>

lemma handleRealtimeChange_UPDATE_eq:
  assumes "eventType p = ''UPDATE''"
    and "\<not> isLocalOperation (id_todo (newRecord p)) ''UPDATE'' s"
  shows "handleRealtimeChange p s =
    s\<lparr>todos := map (\<lambda>todo. if id_todo todo = id_todo (newRecord p) then newRecord p else todo)
                    (todos s)\<rparr>"
  using assms
  by (cases "find (\<lambda>todo. id_todo todo = id_todo (newRecord p)) (todos s)")
     (simp_all add: handleRealtimeChange_def map_replace_absent)

lemma handleRealtimeChange_DELETE_eq:
  assumes "eventType p = ''DELETE''"
    and "\<not> isLocalOperation (id_todo (oldRecord p)) ''DELETE'' s"
  shows "handleRealtimeChange p s =
    s\<lparr>todos := filter (\<lambda>todo. id_todo todo \<noteq> id_todo (oldRecord p)) (todos s)\<rparr>"
  using assms
  by (cases "find (\<lambda>todo. id_todo todo = id_todo (oldRecord p)) (todos s)")
     (simp_all add: handleRealtimeChange_def filter_absent)

text \<open>
  C8. An \<^verbatim>\<open>UPDATE\<close> event that is not suppressed as a local operation leaves the
  length of the list as it is; at every position the entry is the incoming record when
  the old entry carries the event's id, and the old entry otherwise. Nothing else in the
  state changes. When no entry carries the event's id, the state is unchanged.
\<close>

theorem handleRealtimeChange_UPDATE_in_place:
  assumes "eventType p = ''UPDATE''"
    and "\<not> isLocalOperation (id_todo (newRecord p)) ''UPDATE'' s"
  shows "length (todos (handleRealtimeChange p s)) = length (todos s)
    \<and> (\<forall>j < length (todos s).
          todos (handleRealtimeChange p s) ! j =
            (if id_todo (todos s ! j) = id_todo (newRecord p) then newRecord p
             else todos s ! j))
    \<and> inputValue (handleRealtimeChange p s) = inputValue s
    \<and> user (handleRealtimeChange p s) = user s
    \<and> localOperations (handleRealtimeChange p s) = localOperations s
    \<and> ((\<forall>t \<in> set (todos s). id_todo t \<noteq> id_todo (newRecord p))
          \<longrightarrow> handleRealtimeChange p s = s)"
proof -
  have absent: "handleRealtimeChange p s = s"
    if "\<forall>t \<in> set (todos s). id_todo t \<noteq> id_todo (newRecord p)"
  proof -
    from that have "find (\<lambda>todo. id_todo todo = id_todo (newRecord p)) (todos s) = None"
      by (simp add: find_None_iff)
    with assms show ?thesis by (simp add: handleRealtimeChange_def)
  qed
  show ?thesis
    using absent by (simp add: handleRealtimeChange_UPDATE_eq [OF assms])
qed

theorem handleRealtimeChange_UPDATE_in_place_witness:
  "eventType (feed ''UPDATE'' (task ''2'' ''tea'' True at11)) = ''UPDATE''
   \<and> \<not> isLocalOperation (id_todo (newRecord (feed ''UPDATE'' (task ''2'' ''tea'' True at11))))
         ''UPDATE''
         (signedIn [task ''3'' ''c'' False at12, task ''2'' ''b'' False at11,
                    task ''1'' ''a'' False at10] [] {})
   \<and> length (todos (handleRealtimeChange (feed ''UPDATE'' (task ''2'' ''tea'' True at11))
        (signedIn [task ''3'' ''c'' False at12, task ''2'' ''b'' False at11,
                   task ''1'' ''a'' False at10] [] {}))) = 3
   \<and> todos (handleRealtimeChange (feed ''UPDATE'' (task ''2'' ''tea'' True at11))
        (signedIn [task ''3'' ''c'' False at12, task ''2'' ''b'' False at11,
                   task ''1'' ''a'' False at10] [] {})) ! 0 = task ''3'' ''c'' False at12
   \<and> todos (handleRealtimeChange (feed ''UPDATE'' (task ''2'' ''tea'' True at11))
        (signedIn [task ''3'' ''c'' False at12, task ''2'' ''b'' False at11,
                   task ''1'' ''a'' False at10] [] {})) ! 1 = task ''2'' ''tea'' True at11
   \<and> todos (handleRealtimeChange (feed ''UPDATE'' (task ''2'' ''tea'' True at11))
        (signedIn [task ''3'' ''c'' False at12, task ''2'' ''b'' False at11,
                   task ''1'' ''a'' False at10] [] {})) ! 2 = task ''1'' ''a'' False at10"
proof -
  let ?p = "feed ''UPDATE'' (task ''2'' ''tea'' True at11)"
  let ?s = "signedIn [task ''3'' ''c'' False at12, task ''2'' ''b'' False at11,
                      task ''1'' ''a'' False at10] [] {}"
  have kind: "eventType ?p = ''UPDATE''" by simp
  have shown: "\<not> isLocalOperation (id_todo (newRecord ?p)) ''UPDATE'' ?s"
    by (simp add: isLocalOperation_def)
  from handleRealtimeChange_UPDATE_in_place [OF kind shown]
  have len: "length (todos (handleRealtimeChange ?p ?s)) = 3"
    and pos: "\<forall>j < 3. todos (handleRealtimeChange ?p ?s) ! j =
       (if id_todo (todos ?s ! j) = id_todo (newRecord ?p) then newRecord ?p else todos ?s ! j)"
    by simp_all
  from pos have "todos (handleRealtimeChange ?p ?s) ! 0 = task ''3'' ''c'' False at12"
    and "todos (handleRealtimeChange ?p ?s) ! 1 = task ''2'' ''tea'' True at11"
    and "todos (handleRealtimeChange ?p ?s) ! 2 = task ''1'' ''a'' False at10"
    by simp_all
  with kind shown len show ?thesis by blast
qed

text \<open>
  C4. For an \<^verbatim>\<open>UPDATE\<close> or \<^verbatim>\<open>DELETE\<close> event that is not suppressed as a local
  operation, handling the same event twice in succession gives the same state as handling
  it once.
\<close>

theorem handleRealtimeChange_idempotent:
  assumes "(eventType p = ''UPDATE''
              \<and> \<not> isLocalOperation (id_todo (newRecord p)) ''UPDATE'' s)
    \<or> (eventType p = ''DELETE''
              \<and> \<not> isLocalOperation (id_todo (oldRecord p)) ''DELETE'' s)"
  shows "handleRealtimeChange p (handleRealtimeChange p s) = handleRealtimeChange p s"
  using assms
proof
  assume u: "eventType p = ''UPDATE''
    \<and> \<not> isLocalOperation (id_todo (newRecord p)) ''UPDATE'' s"
  then have first: "handleRealtimeChange p s =
      s\<lparr>todos := map (\<lambda>todo. if id_todo todo = id_todo (newRecord p) then newRecord p else todo)
                      (todos s)\<rparr>"
    by (simp add: handleRealtimeChange_UPDATE_eq)
  from u have "\<not> isLocalOperation (id_todo (newRecord p)) ''UPDATE'' (handleRealtimeChange p s)"
    by (simp add: first)
  with u have "handleRealtimeChange p (handleRealtimeChange p s) =
      (handleRealtimeChange p s)\<lparr>todos := map (\<lambda>todo. if id_todo todo = id_todo (newRecord p)
         then newRecord p else todo) (todos (handleRealtimeChange p s))\<rparr>"
    by (simp add: handleRealtimeChange_UPDATE_eq)
  then show ?thesis
    by (simp add: first map_replace_twice)
next
  assume d: "eventType p = ''DELETE''
    \<and> \<not> isLocalOperation (id_todo (oldRecord p)) ''DELETE'' s"
  then have first: "handleRealtimeChange p s =
      s\<lparr>todos := filter (\<lambda>todo. id_todo todo \<noteq> id_todo (oldRecord p)) (todos s)\<rparr>"
    by (simp add: handleRealtimeChange_DELETE_eq)
  from d have "\<not> isLocalOperation (id_todo (oldRecord p)) ''DELETE'' (handleRealtimeChange p s)"
    by (simp add: first)
  with d have "handleRealtimeChange p (handleRealtimeChange p s) =
      (handleRealtimeChange p s)\<lparr>todos := filter (\<lambda>todo. id_todo todo \<noteq> id_todo (oldRecord p))
         (todos (handleRealtimeChange p s))\<rparr>"
    by (simp add: handleRealtimeChange_DELETE_eq)
  then show ?thesis
    by (simp add: first)
qed

theorem handleRealtimeChange_idempotent_witness:
  "eventType (feed ''DELETE'' (task ''1'' ''a'' False at10)) = ''DELETE''
   \<and> \<not> isLocalOperation (id_todo (oldRecord (feed ''DELETE'' (task ''1'' ''a'' False at10))))
         ''DELETE'' (signedIn [task ''2'' ''b'' False at11, task ''1'' ''a'' False at10] [] {})
   \<and> handleRealtimeChange (feed ''DELETE'' (task ''1'' ''a'' False at10))
       (handleRealtimeChange (feed ''DELETE'' (task ''1'' ''a'' False at10))
         (signedIn [task ''2'' ''b'' False at11, task ''1'' ''a'' False at10] [] {}))
     = handleRealtimeChange (feed ''DELETE'' (task ''1'' ''a'' False at10))
         (signedIn [task ''2'' ''b'' False at11, task ''1'' ''a'' False at10] [] {})
   \<and> handleRealtimeChange (feed ''DELETE'' (task ''1'' ''a'' False at10))
         (signedIn [task ''2'' ''b'' False at11, task ''1'' ''a'' False at10] [] {})
     = signedIn [task ''2'' ''b'' False at11] [] {}"
proof -
  let ?p = "feed ''DELETE'' (task ''1'' ''a'' False at10)"
  let ?s = "signedIn [task ''2'' ''b'' False at11, task ''1'' ''a'' False at10] [] {}"
  have kind: "eventType ?p = ''DELETE''" by simp
  have shown: "\<not> isLocalOperation (id_todo (oldRecord ?p)) ''DELETE'' ?s"
    by (simp add: isLocalOperation_def)
  have once: "handleRealtimeChange ?p ?s = signedIn [task ''2'' ''b'' False at11] [] {}"
    by (simp add: handleRealtimeChange_def isLocalOperation_def)
  have twice: "handleRealtimeChange ?p (handleRealtimeChange ?p ?s) = handleRealtimeChange ?p ?s"
    by (rule handleRealtimeChange_idempotent) (use kind shown in blast)
  from kind shown twice once show ?thesis by blast
qed

subsection \<open>Toggling\<close>

lemma toggleTodo_Data:
  assumes "user s = Some uid"
    and "find (\<lambda>t. id_todo t = ident) (todos s) = Some t0"
  shows "toggleTodo ident (Data u) s =
    s\<lparr>todos := map (\<lambda>t. if id_todo t = ident then t\<lparr>completed := \<not> completed t\<rparr> else t)
                    (todos s),
      localOperations := insert (operationKey ident ''UPDATE'') (localOperations s)\<rparr>"
  using assms
  by (simp add: toggleTodo_def toggleTodo_begin_def toggleTodo_settle_def addLocalOperation_def)

lemma toggleTodo_failure:
  assumes "user s = Some uid"
    and "find (\<lambda>t. id_todo t = ident) (todos s) = Some t0"
    and "r = ErrorResult \<or> r = Exception"
  shows "toggleTodo ident r s =
    s\<lparr>todos := map (\<lambda>t. if id_todo t = ident then t\<lparr>completed := completed t0\<rparr> else t)
                    (todos s)\<rparr>"
  using assms
  by (auto simp add: toggleTodo_def toggleTodo_begin_def toggleTodo_settle_def
      toggle_then_restore simp del: map_map)

text \<open>
  C3. Let the user be signed in (without a user \<^verbatim>\<open>toggleTodo\<close> sends no request, so
  there is no confirmation and no failure to follow it) and let \<open>t0\<close> be the entry that
  the list holds for the id, as \<^verbatim>\<open>todos.find\<close> returns it. After \<^verbatim>\<open>toggleTodo\<close> and
  a successful answer the entry for the id is \<open>t0\<close> with \<^verbatim>\<open>completed\<close> negated once
  and nothing else changed. After \<^verbatim>\<open>toggleTodo\<close> and a failed request, whether the
  result carries an error or the call throws, the entry for the id is \<open>t0\<close> again.
\<close>

theorem toggleTodo_round_trip:
  assumes "user s = Some uid"
    and "find (\<lambda>t. id_todo t = ident) (todos s) = Some t0"
  shows "find (\<lambda>t. id_todo t = ident) (todos (toggleTodo ident (Data ()) s))
        = Some (t0\<lparr>completed := \<not> completed t0\<rparr>)
    \<and> find (\<lambda>t. id_todo t = ident) (todos (toggleTodo ident ErrorResult s)) = Some t0
    \<and> find (\<lambda>t. id_todo t = ident) (todos (toggleTodo ident Exception s)) = Some t0"
  using assms
  by (simp add: toggleTodo_Data [OF assms] toggleTodo_failure [OF assms] find_map_update)

theorem toggleTodo_round_trip_witness:
  "user (signedIn [task ''2'' ''b'' False at10] [] {}) = Some ''u1''
   \<and> find (\<lambda>t. id_todo t = ''2'') (todos (signedIn [task ''2'' ''b'' False at10] [] {}))
        = Some (task ''2'' ''b'' False at10)
   \<and> find (\<lambda>t. id_todo t = ''2'')
        (todos (toggleTodo ''2'' (Data ()) (signedIn [task ''2'' ''b'' False at10] [] {})))
        = Some (task ''2'' ''b'' True at10)
   \<and> find (\<lambda>t. id_todo t = ''2'')
        (todos (toggleTodo ''2'' ErrorResult (signedIn [task ''2'' ''b'' False at10] [] {})))
        = Some (task ''2'' ''b'' False at10)"
proof -
  let ?s = "signedIn [task ''2'' ''b'' False at10] [] {}"
  have who: "user ?s = Some ''u1''" by simp
  have there: "find (\<lambda>t. id_todo t = ''2'') (todos ?s) = Some (task ''2'' ''b'' False at10)"
    by simp
  from toggleTodo_round_trip [OF who there] who there show ?thesis by simp
qed

text \<open>With one entry per id, a failed toggle gives back the whole state.\<close>

lemma toggleTodo_failure_restores_list:
  assumes "user s = Some uid"
    and "find (\<lambda>t. id_todo t = ident) (todos s) = Some t0"
    and "distinct (map id_todo (todos s))"
    and "r = ErrorResult \<or> r = Exception"
  shows "toggleTodo ident r s = s"
proof -
  have "map (\<lambda>t. if id_todo t = ident then t\<lparr>completed := completed t0\<rparr> else t) xs = xs"
    if "find (\<lambda>t. id_todo t = ident) xs = Some t0" and "distinct (map id_todo xs)" for xs
    using that
  proof (induction xs)
    case Nil
    then show ?case by simp
  next
    case (Cons x xs)
    show ?case
    proof (cases "id_todo x = ident")
      case True
      with Cons.prems have "x = t0" and "\<forall>t \<in> set xs. id_todo t \<noteq> ident"
        by (auto simp: image_iff)
      then have "find (\<lambda>t. id_todo t = ident) xs = None" by (simp add: find_None_iff)
      with True \<open>x = t0\<close> show ?thesis by (simp add: map_replace_absent)
    next
      case False
      with Cons show ?thesis by simp
    qed
  qed
  with assms show ?thesis by (simp add: toggleTodo_failure [OF assms(1,2,4)])
qed

subsection \<open>Deleting\<close>

text \<open>
  C6. \<^verbatim>\<open>deleteTodo\<close> is called only from the delete button of a list entry (line 674),
  which is rendered only while a user is signed in, and the handler reads the
  \<^verbatim>\<open>user\<close> of that render; so the user is signed in whenever it runs. For an id that
  the list holds, with \<open>t0\<close> the entry that \<^verbatim>\<open>todos.find\<close> returns for it,
  \<^verbatim>\<open>deleteTodo\<close> at once removes the entry from the list (the list holds no entry
  with that id afterwards) and keeps \<open>t0\<close> as the copy; when the delete request fails,
  by an error result or by an exception, \<open>t0\<close> is put back at the head of the list.
\<close>

theorem deleteTodo_optimistic:
  assumes "user s = Some uid"
    and "find (\<lambda>t. id_todo t = ident) (todos s) = Some t0"
  shows "deleteTodo_begin ident s
        = Some (t0, s\<lparr>todos := filter (\<lambda>todo. id_todo todo \<noteq> ident) (todos s)\<rparr>)
    \<and> t0 \<in> set (todos s) \<and> id_todo t0 = ident
    \<and> find (\<lambda>t. id_todo t = ident) (filter (\<lambda>todo. id_todo todo \<noteq> ident) (todos s)) = None
    \<and> deleteTodo ident ErrorResult s
        = s\<lparr>todos := t0 # filter (\<lambda>todo. id_todo todo \<noteq> ident) (todos s)\<rparr>
    \<and> deleteTodo ident Exception s
        = s\<lparr>todos := t0 # filter (\<lambda>todo. id_todo todo \<noteq> ident) (todos s)\<rparr>"
proof -
  from assms(2) have "t0 \<in> set (todos s)" and "id_todo t0 = ident"
    by (auto simp: find_Some_iff)
  moreover have "find (\<lambda>t. id_todo t = ident)
      (filter (\<lambda>todo. id_todo todo \<noteq> ident) (todos s)) = None"
    by (simp add: find_None_iff)
  ultimately show ?thesis
    using assms by (simp add: deleteTodo_def deleteTodo_begin_def deleteTodo_settle_def)
qed

theorem deleteTodo_optimistic_witness:
  "user (signedIn [task ''2'' ''b'' False at11, task ''1'' ''a'' False at10] [] {}) = Some ''u1''
   \<and> find (\<lambda>t. id_todo t = ''1'')
        (todos (signedIn [task ''2'' ''b'' False at11, task ''1'' ''a'' False at10] [] {}))
        = Some (task ''1'' ''a'' False at10)
   \<and> deleteTodo_begin ''1'' (signedIn [task ''2'' ''b'' False at11, task ''1'' ''a'' False at10] [] {})
        = Some (task ''1'' ''a'' False at10, signedIn [task ''2'' ''b'' False at11] [] {})
   \<and> deleteTodo ''1'' ErrorResult
        (signedIn [task ''2'' ''b'' False at11, task ''1'' ''a'' False at10] [] {})
        = signedIn [task ''1'' ''a'' False at10, task ''2'' ''b'' False at11] [] {}"
proof -
  let ?s = "signedIn [task ''2'' ''b'' False at11, task ''1'' ''a'' False at10] [] {}"
  have who: "user ?s = Some ''u1''" by simp
  have there: "find (\<lambda>t. id_todo t = ''1'') (todos ?s) = Some (task ''1'' ''a'' False at10)"
    by simp
  from deleteTodo_optimistic [OF who there] who there show ?thesis by simp
qed

subsection \<open>Adding\<close>

lemma addTodo_begin_Some:
  assumes "trim (inputValue s) \<noteq> []" and "user s = Some uid"
  shows "addTodo_begin n c u s =
    Some (\<lparr>id_todo = ''temp_'' @ toString n, user_id = uid, text_todo = trim (inputValue s),
            completed = False, created_at = c, updated_at = u\<rparr>,
          s\<lparr>todos := \<lparr>id_todo = ''temp_'' @ toString n, user_id = uid,
                text_todo = trim (inputValue s), completed = False, created_at = c,
                updated_at = u\<rparr> # todos s, inputValue := []\<rparr>)"
  using assms by (simp add: addTodo_begin_def Let_def)

lemma addTodo_begin_SomeD:
  assumes "addTodo_begin n c u s = Some (tmp, s1)"
  shows "trim (inputValue s) \<noteq> [] \<and> user s \<noteq> None
    \<and> id_todo tmp = ''temp_'' @ toString n \<and> created_at tmp = c
    \<and> text_todo tmp = trim (inputValue s)
    \<and> s1 = s\<lparr>todos := tmp # todos s, inputValue := []\<rparr>"
  using assms by (auto simp: addTodo_begin_def Let_def split: if_splits option.splits)

lemma addTodo_settle_Data_fresh:
  assumes "\<forall>t \<in> set xs. id_todo t \<noteq> id_todo tmp"
  shows "todos (addTodo_settle tmp (Data d) (s\<lparr>todos := tmp # xs\<rparr>)) = d # xs"
proof -
  from assms have "find (\<lambda>todo. id_todo todo = id_todo tmp) xs = None"
    by (simp add: find_None_iff)
  then show ?thesis
    by (simp add: addTodo_settle_def addLocalOperation_def map_replace_absent)
qed

lemma addTodo_settle_failure_fresh:
  assumes "\<forall>t \<in> set xs. id_todo t \<noteq> id_todo tmp" and "r = ErrorResult \<or> r = Exception"
  shows "todos (addTodo_settle tmp r (s\<lparr>todos := tmp # xs\<rparr>)) = xs"
proof -
  from assms have "find (\<lambda>todo. id_todo todo = id_todo tmp) xs = None"
    by (simp add: find_None_iff)
  with assms(2) show ?thesis
    by (auto simp add: addTodo_settle_def filter_absent)
qed

text \<open>
  C2, as the component has it. Let the user be signed in, the trimmed input be non-empty
  and no entry of the list carry the placeholder's id \<^verbatim>\<open>temp_\<close> followed by the
  reading of \<^verbatim>\<open>Date.now()\<close>. When the insert request fails, by an error result or by an
  exception, the list is the list from before the operation, and the input buffer holds
  the trimmed text; nothing else differs from the state before. So the input buffer holds
  the submitted text again exactly when that text has no white space at its ends.
\<close>

theorem addTodo_rollback:
  assumes "user s = Some uid"
    and "trim (inputValue s) \<noteq> []"
    and "\<forall>t \<in> set (todos s). id_todo t \<noteq> ''temp_'' @ toString dateNow"
    and "r = ErrorResult \<or> r = Exception"
  shows "todos (addTodo dateNow isoCreated isoUpdated r s) = todos s
    \<and> inputValue (addTodo dateNow isoCreated isoUpdated r s) = trim (inputValue s)
    \<and> addTodo dateNow isoCreated isoUpdated r s = s\<lparr>inputValue := trim (inputValue s)\<rparr>"
proof -
  from assms(3)
  have "find (\<lambda>todo. id_todo todo = ''temp_'' @ toString dateNow) (todos s) = None"
    by (simp add: find_None_iff)
  then have "filter (\<lambda>todo. id_todo todo \<noteq> ''temp_'' @ toString dateNow) (todos s) = todos s"
    by (rule filter_absent)
  with assms(4) have "addTodo dateNow isoCreated isoUpdated r s
      = s\<lparr>inputValue := trim (inputValue s)\<rparr>"
    by (auto simp add: addTodo_def addTodo_begin_Some [OF assms(2,1)] addTodo_settle_def)
  then show ?thesis by simp
qed

theorem addTodo_rollback_witness:
  "user (signedIn [task ''1'' ''a'' False at10] ''buy milk'' {}) = Some ''u1''
   \<and> trim (inputValue (signedIn [task ''1'' ''a'' False at10] ''buy milk'' {})) \<noteq> []
   \<and> ''temp_'' @ toString ms11
         \<notin> id_todo ` set (todos (signedIn [task ''1'' ''a'' False at10] ''buy milk'' {}))
   \<and> addTodo ms11 at11 at11 ErrorResult (signedIn [task ''1'' ''a'' False at10] ''buy milk'' {})
        = signedIn [task ''1'' ''a'' False at10] ''buy milk'' {}"
proof -
  let ?s = "signedIn [task ''1'' ''a'' False at10] ''buy milk'' {}"
  have who: "user ?s = Some ''u1''" by simp
  have trimmed: "trim (inputValue ?s) = ''buy milk''"
    by (simp add: trim_def isWhiteSpace_def)
  then have filled: "trim (inputValue ?s) \<noteq> []" by simp
  have fresh: "\<forall>t \<in> set (todos ?s). id_todo t \<noteq> ''temp_'' @ toString ms11" by simp
  from addTodo_rollback [OF who filled fresh, of ErrorResult at11 at11] trimmed
  have "addTodo ms11 at11 at11 ErrorResult ?s = ?s" by simp
  moreover have "''temp_'' @ toString ms11 \<notin> id_todo ` set (todos ?s)" by simp
  ultimately show ?thesis using who filled by blast
qed

text \<open>
  C2 as stated fails in two ways. First, the buffer gets the trimmed text: the input
  \<^verbatim>\<open>" milk "\<close> comes back as \<^verbatim>\<open>"milk"\<close>. Second, the roll-back removes every entry
  with the placeholder's id: when the list still holds the placeholder of an add made at
  the same reading of \<^verbatim>\<open>Date.now()\<close>, that entry is removed as well.
\<close>

theorem addTodo_rollback_counterexample:
  "inputValue (addTodo ms10 at10 at10 ErrorResult (signedIn [] '' milk '' {})) = ''milk''
   \<and> inputValue (addTodo ms10 at10 at10 ErrorResult (signedIn [] '' milk '' {}))
        \<noteq> inputValue (signedIn [] '' milk '' {})
   \<and> todos (addTodo ms10 at10 at10 ErrorResult
        (signedIn [task temp10 ''buy milk'' False at10] ''eggs'' {})) = []
   \<and> todos (addTodo ms10 at10 at10 ErrorResult
        (signedIn [task temp10 ''buy milk'' False at10] ''eggs'' {}))
        \<noteq> todos (signedIn [task temp10 ''buy milk'' False at10] ''eggs'' {})"
  by (simp add: addTodo_def addTodo_begin_def addTodo_settle_def Let_def trim_def
      isWhiteSpace_def toString_ms10)

text \<open>
  When neither the placeholder's id nor the id of the server's record is in the list, a
  successful add followed by the echo of the insert leaves one entry with the new id: the
  echo is discarded.
\<close>

lemma addTodo_echo_discarded:
  assumes "user s = Some uid"
    and "trim (inputValue s) \<noteq> []"
    and "\<forall>t \<in> set (todos s). id_todo t \<noteq> ''temp_'' @ toString n \<and> id_todo t \<noteq> id_todo d"
    and "eventType p = ''INSERT''"
    and "id_todo (newRecord p) = id_todo d"
  shows "todos (addTodo n c u (Data d) s) = d # todos s
    \<and> handleRealtimeChange p (addTodo n c u (Data d) s) = addTodo n c u (Data d) s
    \<and> length (filter (\<lambda>t. id_todo t = id_todo d)
         (todos (handleRealtimeChange p (addTodo n c u (Data d) s)))) = 1"
proof -
  from assms(3)
  have "find (\<lambda>todo. id_todo todo = ''temp_'' @ toString n) (todos s) = None"
    by (simp add: find_None_iff)
  then have kept: "map (\<lambda>todo. if id_todo todo = ''temp_'' @ toString n then d else todo) (todos s)
      = todos s"
    by (rule map_replace_absent)
  have run: "addTodo n c u (Data d) s =
      s\<lparr>todos := d # todos s, inputValue := [],
        localOperations := insert (operationKey (id_todo d) ''INSERT'') (localOperations s)\<rparr>"
    using kept
    by (simp add: addTodo_def addTodo_begin_Some [OF assms(2,1)] addTodo_settle_def
        addLocalOperation_def)
  have echo: "handleRealtimeChange p (addTodo n c u (Data d) s) = addTodo n c u (Data d) s"
    using assms(4,5) by (simp add: run handleRealtimeChange_def isLocalOperation_def)
  from assms(3) have "filter (\<lambda>t. id_todo t = id_todo d) (todos s) = []"
    by (simp add: filter_empty_conv)
  then show ?thesis by (simp add: echo) (simp add: run)
qed

text \<open>
  C1. The key \<^verbatim>\<open>INSERT_\<close>id is recorded only when the insert request has answered,
  and the answer replaces the placeholder without looking for the server's id in the list.
  So when the change feed delivers the echo of the insert before the answer arrives, the
  echo is applied as a second entry. The run: the list is empty and the user signed in;
  \<^verbatim>\<open>addTodo\<close> for \<^verbatim>\<open>buy milk\<close> puts the placeholder \<open>temp10\<close> into the list; the feed delivers \<^verbatim>\<open>INSERT\<close> for the new row with id
  1, which is neither suppressed nor already present, and is prepended; the request
  answers with the row with id 1, which replaces the placeholder; the feed delivers the
  same \<^verbatim>\<open>INSERT\<close> again inside the suppression window, and it is discarded. The list
  then holds two entries with id 1.
\<close>

theorem echo_before_answer_duplicates:
  "addTodo_begin ms10 at10 at10 (signedIn [] ''buy milk'' {})
     = Some (task temp10 ''buy milk'' False at10,
             signedIn [task temp10 ''buy milk'' False at10] [] {})
   \<and> handleRealtimeChange (feed ''INSERT'' (task ''1'' ''buy milk'' False at10s))
        (signedIn [task temp10 ''buy milk'' False at10] [] {})
     = signedIn [task ''1'' ''buy milk'' False at10s,
                 task temp10 ''buy milk'' False at10] [] {}
   \<and> addTodo_settle (task temp10 ''buy milk'' False at10)
        (Data (task ''1'' ''buy milk'' False at10s))
        (signedIn [task ''1'' ''buy milk'' False at10s,
                   task temp10 ''buy milk'' False at10] [] {})
     = signedIn [task ''1'' ''buy milk'' False at10s, task ''1'' ''buy milk'' False at10s] []
         {''INSERT_1''}
   \<and> handleRealtimeChange (feed ''INSERT'' (task ''1'' ''buy milk'' False at10s))
        (signedIn [task ''1'' ''buy milk'' False at10s, task ''1'' ''buy milk'' False at10s] []
           {''INSERT_1''})
     = signedIn [task ''1'' ''buy milk'' False at10s, task ''1'' ''buy milk'' False at10s] []
         {''INSERT_1''}
   \<and> length (filter (\<lambda>t. id_todo t = ''1'')
        [task ''1'' ''buy milk'' False at10s, task ''1'' ''buy milk'' False at10s]) = 2"
  by (simp add: addTodo_begin_def addTodo_settle_def addLocalOperation_def
      handleRealtimeChange_def isLocalOperation_def operationKey_def Let_def trim_def
      isWhiteSpace_def toString_ms10)

subsection \<open>The order of the list\<close>

lemma sorted_desc_Cons:
  "sorted_desc (x # xs) \<longleftrightarrow> (\<forall>t \<in> set xs. created_at t \<le> created_at x) \<and> sorted_desc xs"
  by (simp add: sorted_desc_def)

lemma addCall_todos:
  assumes "call_admissible a (todos s)"
  shows "todos (addCall a s) =
    (case addTodo_begin (clock_ms a) (iso_created a) (iso_updated a)
            (setInputValue (typed a) s) of
       None \<Rightarrow> todos s
     | Some (tmp, s1) \<Rightarrow> (case answer a of Data d \<Rightarrow> d # todos s | _ \<Rightarrow> todos s))"
proof (cases "addTodo_begin (clock_ms a) (iso_created a) (iso_updated a)
    (setInputValue (typed a) s)")
  case None
  then show ?thesis by (simp add: addCall_def addTodo_def setInputValue_def)
next
  case (Some p)
  obtain tmp s1 where p: "p = (tmp, s1)" by (cases p)
  from Some p have d: "id_todo tmp = ''temp_'' @ toString (clock_ms a)"
    "s1 = (setInputValue (typed a) s)\<lparr>todos := tmp # todos (setInputValue (typed a) s),
            inputValue := []\<rparr>"
    using addTodo_begin_SomeD by blast+
  from assms d have fresh: "\<forall>t \<in> set (todos s). id_todo t \<noteq> id_todo tmp"
    by (simp add: call_admissible_def)
  have s1: "s1 = (s\<lparr>inputValue := []\<rparr>)\<lparr>todos := tmp # todos s\<rparr>"
    by (simp add: d setInputValue_def)
  show ?thesis
  proof (cases "answer a")
    case (Data dd)
    with Some p show ?thesis
      by (simp add: addCall_def addTodo_def s1 addTodo_settle_Data_fresh [OF fresh])
  next
    case ErrorResult
    with Some p show ?thesis
      by (simp add: addCall_def addTodo_def s1 addTodo_settle_failure_fresh [OF fresh])
  next
    case Exception
    with Some p show ?thesis
      by (simp add: addCall_def addTodo_def s1 addTodo_settle_failure_fresh [OF fresh])
  qed
qed

lemma addCall_states_sorted:
  assumes "sorted_desc (todos s)" and "call_admissible a (todos s)"
  shows "\<forall>s' \<in> set (addCall_states a s). sorted_desc (todos s')"
proof (cases "addTodo_begin (clock_ms a) (iso_created a) (iso_updated a)
    (setInputValue (typed a) s)")
  case None
  with assms(1) show ?thesis by (simp add: addCall_states_def setInputValue_def)
next
  case (Some p)
  obtain tmp s1 where p: "p = (tmp, s1)" by (cases p)
  from Some p have d: "created_at tmp = iso_created a"
    "s1 = (setInputValue (typed a) s)\<lparr>todos := tmp # todos (setInputValue (typed a) s),
            inputValue := []\<rparr>"
    using addTodo_begin_SomeD by blast+
  have typed: "sorted_desc (todos (setInputValue (typed a) s))"
    using assms(1) by (simp add: setInputValue_def)
  have placed: "sorted_desc (todos s1)"
    using assms by (simp add: d setInputValue_def sorted_desc_Cons call_admissible_def)
  have "todos (addTodo_settle tmp (answer a) s1) = todos (addCall a s)"
    using Some p by (simp add: addCall_def addTodo_def)
  also have "\<dots> = (case answer a of Data d \<Rightarrow> d # todos s | _ \<Rightarrow> todos s)"
    using Some p by (simp add: addCall_todos [OF assms(2)])
  finally have settled: "sorted_desc (todos (addTodo_settle tmp (answer a) s1))"
    using assms by (cases "answer a") (simp_all add: sorted_desc_Cons call_admissible_def)
  from typed placed settled show ?thesis
    using Some p by (simp add: addCall_states_def)
qed

lemma addCall_sorted:
  assumes "sorted_desc (todos s)" and "call_admissible a (todos s)"
  shows "sorted_desc (todos (addCall a s))"
  using assms
  by (auto simp add: addCall_todos sorted_desc_Cons call_admissible_def
      split: option.splits response.splits)

lemma observations_sorted:
  "sorted_desc (todos s) \<Longrightarrow> calls_admissible s calls \<Longrightarrow>
   \<forall>s' \<in> set (observations s calls). sorted_desc (todos s')"
proof (induction calls arbitrary: s)
  case Nil
  then show ?case by simp
next
  case (Cons a calls)
  from Cons.prems have adm: "call_admissible a (todos s)"
    and rest: "calls_admissible (addCall a s) calls" by simp_all
  have "\<forall>s' \<in> set (observations (addCall a s) calls). sorted_desc (todos s')"
    by (rule Cons.IH [OF addCall_sorted [OF Cons.prems(1) adm] rest])
  with addCall_states_sorted [OF Cons.prems(1) adm] Cons.prems(1) show ?case
    by auto
qed

lemma run_calls_Cons: "run_calls (a # calls) s = run_calls calls (addCall a s)"
  by (simp add: run_calls_def)

lemma run_calls_take_Suc:
  "k < length calls \<Longrightarrow>
   run_calls (take (Suc k) calls) s = addCall (calls ! k) (run_calls (take k calls) s)"
  by (simp add: run_calls_def take_Suc_conv_app_nth)

lemma calls_admissible_nth:
  "calls_admissible s calls \<Longrightarrow> k < length calls \<Longrightarrow>
   call_admissible (calls ! k) (todos (run_calls (take k calls) s))"
proof (induction calls arbitrary: s k)
  case Nil
  then show ?case by simp
next
  case (Cons a calls)
  show ?case
  proof (cases k)
    case 0
    with Cons.prems show ?thesis by (simp add: run_calls_def)
  next
    case (Suc j)
    with Cons.prems
    have "call_admissible (calls ! j) (todos (run_calls (take j calls) (addCall a s)))"
      by (intro Cons.IH) simp_all
    with Suc show ?thesis by (simp add: run_calls_Cons)
  qed
qed

text \<open>
  C5, as the component has it. Start from a list ordered by \<^verbatim>\<open>created_at\<close> descending
  and run a sequence of add operations one after the other: each is typed, added and
  answered before the next begins, and nothing else happens in between. Let each
  operation meet a list with no entry newer than the timestamps it writes (the
  placeholder's, and the server record's when the request succeeds) and with no entry that
  carries its placeholder's id. Then the list is ordered by \<^verbatim>\<open>created_at\<close> descending
  in every state observed on the way: before each operation, after the text is typed,
  after the optimistic insert, and after the answer is handled. And each operation that
  passes the guard places its new task first: the placeholder is the head of the list
  after the optimistic insert, and the server's record is the head after a successful
  answer, in both cases in front of the list as it was.
\<close>

theorem adds_keep_order:
  assumes "sorted_desc (todos s)" and "calls_admissible s calls"
  shows "(\<forall>s' \<in> set (observations s calls). sorted_desc (todos s'))
    \<and> (\<forall>k < length calls. \<forall>tmp s1.
          addTodo_begin (clock_ms (calls ! k)) (iso_created (calls ! k)) (iso_updated (calls ! k))
              (setInputValue (typed (calls ! k)) (run_calls (take k calls) s)) = Some (tmp, s1)
          \<longrightarrow> todos s1 = tmp # todos (run_calls (take k calls) s)
              \<and> (\<forall>d. answer (calls ! k) = Data d
                    \<longrightarrow> todos (run_calls (take (Suc k) calls) s)
                          = d # todos (run_calls (take k calls) s)))"
proof (intro conjI allI impI)
  show "\<forall>s' \<in> set (observations s calls). sorted_desc (todos s')"
    by (rule observations_sorted [OF assms])
next
  fix k tmp s1
  assume k: "k < length calls"
    and b: "addTodo_begin (clock_ms (calls ! k)) (iso_created (calls ! k)) (iso_updated (calls ! k))
              (setInputValue (typed (calls ! k)) (run_calls (take k calls) s)) = Some (tmp, s1)"
  from addTodo_begin_SomeD [OF b]
  show "todos s1 = tmp # todos (run_calls (take k calls) s)"
    by (simp add: setInputValue_def)
next
  fix k tmp s1 d
  assume k: "k < length calls"
    and b: "addTodo_begin (clock_ms (calls ! k)) (iso_created (calls ! k)) (iso_updated (calls ! k))
              (setInputValue (typed (calls ! k)) (run_calls (take k calls) s)) = Some (tmp, s1)"
    and d: "answer (calls ! k) = Data d"
  have "todos (run_calls (take (Suc k) calls) s)
      = todos (addCall (calls ! k) (run_calls (take k calls) s))"
    by (simp add: run_calls_take_Suc [OF k])
  also have "\<dots> = d # todos (run_calls (take k calls) s)"
    using b d by (simp add: addCall_todos [OF calls_admissible_nth [OF assms(2) k]])
  finally show "todos (run_calls (take (Suc k) calls) s) = d # todos (run_calls (take k calls) s)" .
qed

theorem adds_keep_order_witness:
  "sorted_desc (todos (signedIn [task ''1'' ''a'' False at10] [] {}))
   \<and> calls_admissible (signedIn [task ''1'' ''a'' False at10] [] {})
         [adding ''b'' ms11 at11 (Data (task ''2'' ''b'' False at11s)),
          adding ''c'' ms12 at12 ErrorResult]
   \<and> list_all (\<lambda>s'. sorted_desc (todos s'))
         (observations (signedIn [task ''1'' ''a'' False at10] [] {})
            [adding ''b'' ms11 at11 (Data (task ''2'' ''b'' False at11s)),
             adding ''c'' ms12 at12 ErrorResult])"
proof -
  let ?s = "signedIn [task ''1'' ''a'' False at10] [] {}"
  let ?calls = "[adding ''b'' ms11 at11 (Data (task ''2'' ''b'' False at11s)),
                 adding ''c'' ms12 at12 ErrorResult]"
  have ordered: "sorted_desc (todos ?s)"
    by (simp add: sorted_desc_def)
  have first: "addCall (adding ''b'' ms11 at11 (Data (task ''2'' ''b'' False at11s))) ?s
      = signedIn [task ''2'' ''b'' False at11s, task ''1'' ''a'' False at10] [] {''INSERT_2''}"
    by (simp add: addCall_def setInputValue_def addTodo_def addTodo_begin_def addTodo_settle_def
        addLocalOperation_def operationKey_def Let_def trim_def isWhiteSpace_def toString_ms11)
  have later: "calls_admissible ?s ?calls"
    by (simp add: first) (simp add: call_admissible_def toString_ms11 toString_ms12)
  from adds_keep_order [OF ordered later]
  have "\<forall>s' \<in> set (observations ?s ?calls). sorted_desc (todos s')" by (rule conjunct1)
  then have "list_all (\<lambda>s'. sorted_desc (todos s')) (observations ?s ?calls)"
    by (simp only: list_all_iff)
  with ordered later show ?thesis by blast
qed

text \<open>
  C5 as stated fails in four ways. First, the timestamps of the add operations may
  increase among themselves and still lie before an entry of the list: the list holds a
  row created at 12 o'clock, the client's clock shows 10 o'clock, and the placeholder
  is put in front of the newer row. Second, the placeholder carries the client's time
  and the confirmed record the server's: the list holds a row created at 11 o'clock, the
  client's clock shows 12 o'clock, the server's record is stamped shortly after 10
  o'clock and takes the placeholder's place in front of the newer row. Third, the answer
  replaces every entry with the placeholder's id: the list still holds the placeholder of
  an add made at the same reading of \<^verbatim>\<open>Date.now()\<close>, behind a row that the feed has
  delivered since; the server's record, newer than all of them, then lands both in front
  of and behind that row. Fourth, two add operations may be in flight at once, with
  timestamps that increase in the order in which they are written: the first add inserts
  its placeholder at 10:00:00.000, the second add inserts its placeholder 200 ms later
  in front of it, and the first answer, stamped 250 ms after the first request, replaces
  the first placeholder where it stands, behind the older second placeholder; the
  server's record is neither first nor in order.
\<close>

theorem adds_keep_order_counterexample:
  "sorted_desc (todos (signedIn [task ''1'' ''a'' False at12] [] {}))
   \<and> addTodo_begin ms10 at10 at10 (setInputValue ''b'' (signedIn [task ''1'' ''a'' False at12] [] {}))
       = Some (task temp10 ''b'' False at10,
               signedIn [task temp10 ''b'' False at10, task ''1'' ''a'' False at12] [] {})
   \<and> \<not> sorted_desc [task temp10 ''b'' False at10, task ''1'' ''a'' False at12]
   \<and> sorted_desc (todos (signedIn [task ''1'' ''a'' False at11] [] {}))
   \<and> todos (addCall (adding ''b'' ms12 at12 (Data (task ''2'' ''b'' False at10s)))
        (signedIn [task ''1'' ''a'' False at11] [] {}))
       = [task ''2'' ''b'' False at10s, task ''1'' ''a'' False at11]
   \<and> \<not> sorted_desc [task ''2'' ''b'' False at10s, task ''1'' ''a'' False at11]
   \<and> sorted_desc (todos (signedIn [task ''7'' ''x'' False at10, task temp10 ''p'' False at10] [] {}))
   \<and> todos (addCall (adding ''b'' ms10 at10_1 (Data (task ''2'' ''b'' False at10s)))
        (signedIn [task ''7'' ''x'' False at10, task temp10 ''p'' False at10] [] {}))
       = [task ''2'' ''b'' False at10s, task ''7'' ''x'' False at10, task ''2'' ''b'' False at10s]
   \<and> \<not> sorted_desc
        [task ''2'' ''b'' False at10s, task ''7'' ''x'' False at10, task ''2'' ''b'' False at10s]
   \<and> addTodo_begin ms10 at10 at10 (setInputValue ''a'' (signedIn [] [] {}))
       = Some (task temp10 ''a'' False at10, signedIn [task temp10 ''a'' False at10] [] {})
   \<and> addTodo_begin ms10_2 at10_2 at10_2
         (setInputValue ''b'' (signedIn [task temp10 ''a'' False at10] [] {}))
       = Some (task temp10_2 ''b'' False at10_2,
               signedIn [task temp10_2 ''b'' False at10_2, task temp10 ''a'' False at10] [] {})
   \<and> sorted_desc [task temp10_2 ''b'' False at10_2, task temp10 ''a'' False at10]
   \<and> todos (addTodo_settle (task temp10 ''a'' False at10) (Data (task ''1'' ''a'' False at10s))
        (signedIn [task temp10_2 ''b'' False at10_2, task temp10 ''a'' False at10] [] {}))
       = [task temp10_2 ''b'' False at10_2, task ''1'' ''a'' False at10s]
   \<and> \<not> sorted_desc [task temp10_2 ''b'' False at10_2, task ''1'' ''a'' False at10s]"
  by (simp add: sorted_desc_def addCall_def setInputValue_def addTodo_def addTodo_begin_def
      addTodo_settle_def addLocalOperation_def Let_def trim_def isWhiteSpace_def toString_ms10
      toString_ms10_2 toString_ms12)


end
